theory Spec2Isabelle
  imports Main "HOL-Library.DAList"
begin

section \<open>JavaScript values\<close>

text \<open>
  The cache stores values of type \<^verbatim>\<open>any\<close> and \<^verbatim>\<open>get\<close> answers \<^verbatim>\<open>undefined\<close> for a
  missing key, so the values are the JavaScript values that JSON decoding can produce,
  together with \<^verbatim>\<open>undefined\<close>. Numbers are the integers (the clock and the TTL are
  whole milliseconds); \<^verbatim>\<open>NaN\<close> and fractions are left out.
\<close>

datatype jsval =
    JUndefined
  | JNull
  | JBool bool
  | JNum int
  | JStr string
  | JArr "jsval list"
  | JObj "(string \<times> jsval) list"

text \<open>The truthiness test that \<^verbatim>\<open>if (cached)\<close> and \<^verbatim>\<open>pageURL || ...\<close> apply.\<close>

fun truthy :: "jsval \<Rightarrow> bool" where
  "truthy JUndefined = False"
| "truthy JNull = False"
| "truthy (JBool b) = b"
| "truthy (JNum n) = (n \<noteq> 0)"
| "truthy (JStr s) = (s \<noteq> [])"
| "truthy (JArr xs) = True"
| "truthy (JObj fs) = True"

section \<open>The runtime: interval timers and the network log\<close>

text \<open>
  \<^verbatim>\<open>setInterval\<close> and \<^verbatim>\<open>clearInterval\<close> belong to the JavaScript runtime. The runtime
  keeps the table of active interval timers, each with the delay it was registered with,
  and hands out a fresh handle for each registration. \<open>requests\<close> logs the URL of every
  call of \<^verbatim>\<open>fetch\<close>, in order.
\<close>

record runtime =
  timers :: "(nat \<times> int) list"
  next_timer :: nat
  requests :: "string list"

definition setInterval :: "int \<Rightarrow> runtime \<Rightarrow> nat \<times> runtime" where
  "setInterval delay rt =
     (next_timer rt,
      rt\<lparr>timers := timers rt @ [(next_timer rt, delay)], next_timer := Suc (next_timer rt)\<rparr>)"

definition clearInterval :: "nat \<Rightarrow> runtime \<Rightarrow> runtime" where
  "clearInterval h rt = rt\<lparr>timers := filter (\<lambda>(h', d). h' \<noteq> h) (timers rt)\<rparr>"

definition running :: "nat \<Rightarrow> runtime \<Rightarrow> bool" where
  "running h rt = (h \<in> fst ` set (timers rt))"

section \<open>src/pokecache.ts\<close>

text \<open>
  The class \<^verbatim>\<open>Cache\<close>, as README.md lists the file. The map is a JavaScript \<^verbatim>\<open>Map\<close>: one
  entry per key, in insertion order. The clock is \<^verbatim>\<open>Date.now()\<close>, in milliseconds.
\<close>

record CacheEntry =
  createdAt :: int
  val :: jsval

record Cache =
  cache :: "(string, CacheEntry) alist"
  reapIntervalId :: "nat option"
  interval :: int

text \<open>
  \<^verbatim>\<open>#startReapLoop\<close>: registers the sweep with the runtime, with the cache's interval as
  the delay, and keeps the handle.
\<close>

definition startReapLoop :: "Cache \<Rightarrow> runtime \<Rightarrow> Cache \<times> runtime" where
  "startReapLoop c rt =
     (let (h, rt') = setInterval (interval c) rt in (c\<lparr>reapIntervalId := Some h\<rparr>, rt'))"

text \<open>The constructor: no check of \<open>interval\<close>, an empty map, then \<^verbatim>\<open>#startReapLoop\<close>.\<close>

definition Cache_new :: "int \<Rightarrow> runtime \<Rightarrow> Cache \<times> runtime" where
  "Cache_new ival rt =
     startReapLoop \<lparr>cache = DAList.empty, reapIntervalId = None, interval = ival\<rparr> rt"

text \<open>\<^verbatim>\<open>add\<close>: \<open>now\<close> is the value of \<^verbatim>\<open>Date.now()\<close> read by the call.\<close>

definition add :: "int \<Rightarrow> string \<Rightarrow> jsval \<Rightarrow> Cache \<Rightarrow> Cache" where
  "add now key v c = c\<lparr>cache := DAList.update key \<lparr>createdAt = now, val = v\<rparr> (cache c)\<rparr>"

text \<open>
  \<^verbatim>\<open>get\<close>: looks the key up and answers the stored value, or \<^verbatim>\<open>undefined\<close> for
  a missing key. The method reads no clock and writes to no field; the state it leaves
  is returned beside the answer.
\<close>

definition get :: "string \<Rightarrow> Cache \<Rightarrow> jsval \<times> Cache" where
  "get key c =
     (case DAList.lookup (cache c) key of
        None \<Rightarrow> (JUndefined, c)
      | Some entry \<Rightarrow> (val entry, c))"

text \<open>
  \<^verbatim>\<open>#reap\<close>: the loop visits the entries of the map in order and deletes from the map
  each key whose entry is older than the cutoff.
\<close>

fun reap_loop ::
  "int \<Rightarrow> (string \<times> CacheEntry) list \<Rightarrow> (string, CacheEntry) alist \<Rightarrow> (string, CacheEntry) alist"
where
  "reap_loop cutoff [] m = m"
| "reap_loop cutoff ((key, entry) # rest) m =
     reap_loop cutoff rest (if createdAt entry < cutoff then DAList.delete key m else m)"

definition reap :: "int \<Rightarrow> Cache \<Rightarrow> Cache" where
  "reap now c =
     (let cutoff = now - interval c
      in c\<lparr>cache := reap_loop cutoff (DAList.impl_of (cache c)) (cache c)\<rparr>)"

text \<open>\<^verbatim>\<open>stopReapLoop\<close>: clears the timer only when a handle is held.\<close>

definition stopReapLoop :: "Cache \<Rightarrow> runtime \<Rightarrow> Cache \<times> runtime" where
  "stopReapLoop c rt =
     (case reapIntervalId c of
        None \<Rightarrow> (c, rt)
      | Some h \<Rightarrow> (c\<lparr>reapIntervalId := None\<rparr>, clearInterval h rt))"

text \<open>\<^verbatim>\<open>stopReapLoop\<close> called \<open>n\<close> times in a row.\<close>

fun stopReapLoop_times :: "nat \<Rightarrow> Cache \<times> runtime \<Rightarrow> Cache \<times> runtime" where
  "stopReapLoop_times 0 s = s"
| "stopReapLoop_times (Suc n) (c, rt) = stopReapLoop_times n (stopReapLoop c rt)"

text \<open>
  The sweep running at each of the given clock readings, in order (the timer's callback
  is \<^verbatim>\<open>() => this.#reap()\<close>).
\<close>

definition sweeps :: "int list \<Rightarrow> Cache \<Rightarrow> Cache" where
  "sweeps ss c = fold reap ss c"

text \<open>
  The clock readings at which an interval timer registered at time \<open>start\<close> with
  delay \<open>T\<close> has fired up to time \<open>now\<close>, when the runtime fires it on schedule:
  \<open>start + T\<close>, \<open>start + 2 * T\<close>, ...
\<close>

definition ticks_until :: "int \<Rightarrow> int \<Rightarrow> int \<Rightarrow> int list" where
  "ticks_until start T now = map (\<lambda>i. start + i * T) [1..(now - start) div T]"

text \<open>
  The read path as the specification words it, for comparison with \<open>get\<close>: the value
  for the key if present and not logically expired, where an entry is logically expired
  once \<open>now - createdAt > ttl\<close>; absent otherwise.
\<close>

definition spec_get :: "int \<Rightarrow> string \<Rightarrow> Cache \<Rightarrow> jsval" where
  "spec_get now key c =
     (case DAList.lookup (cache c) key of
        None \<Rightarrow> JUndefined
      | Some entry \<Rightarrow> if now - createdAt entry > interval c then JUndefined else val entry)"

section \<open>src/pokeapi.ts\<close>

text \<open>
  A response carries its status and what \<^verbatim>\<open>response.json()\<close> gives: the decoded body,
  or nothing when the body is malformed and decoding throws. \<^verbatim>\<open>response.ok\<close> is true
  for the statuses 200 to 299. The network is a function from the URL to the outcome of
  \<^verbatim>\<open>fetch\<close>: a response, or nothing when the transport fails and \<^verbatim>\<open>fetch\<close> throws.
\<close>

record response =
  status :: nat
  body :: "jsval option"

definition ok :: "response \<Rightarrow> bool" where
  "ok r = (200 \<le> status r \<and> status r \<le> 299)"

type_synonym network = "string \<Rightarrow> response option"

datatype error = NetworkFailure | Error string | DecodeError

text \<open>The decimal digits of a number, as the template literal prints the status.\<close>

definition digit :: "nat \<Rightarrow> char" where
  "digit d = ''0123456789'' ! d"

fun show_nat :: "nat \<Rightarrow> string" where
  "show_nat n = (if n < 10 then [digit n] else show_nat (n div 10) @ [digit (n mod 10)])"

declare show_nat.simps [simp del]

definition baseURL :: string where
  "baseURL = ''https://pokeapi.co/api/v2''"

text \<open>The constructor of \<^verbatim>\<open>PokeAPI\<close>: its only field is a cache of five minutes.\<close>

definition PokeAPI_new :: "runtime \<Rightarrow> Cache \<times> runtime" where
  "PokeAPI_new rt = Cache_new 300000 rt"

text \<open>
  The three fetchers differ in their first line, which computes the URL, and are the same
  from there on: look the URL up, answer a truthy cached value, otherwise call the
  network (logged in \<open>requests\<close>), throw on a status that is not ok, decode, store under
  the URL and answer. \<open>now\<close> is the clock reading of the \<^verbatim>\<open>add\<close>. The lines written to
  the console are left out.
\<close>

definition cached_fetch ::
  "network \<Rightarrow> int \<Rightarrow> string \<Rightarrow> Cache \<Rightarrow> runtime \<Rightarrow> (error + jsval) \<times> Cache \<times> runtime"
where
  "cached_fetch net now url c rt =
     (let (cached, c1) = get url c in
      if truthy cached then (Inr cached, c1, rt)
      else
        let rt1 = rt\<lparr>requests := requests rt @ [url]\<rparr> in
        case net url of
          None \<Rightarrow> (Inl NetworkFailure, c1, rt1)
        | Some r \<Rightarrow>
            if \<not> ok r then
              (Inl (Error (''HTTP error! status: '' @ show_nat (status r))), c1, rt1)
            else
              (case body r of
                 None \<Rightarrow> (Inl DecodeError, c1, rt1)
               | Some data \<Rightarrow> (Inr data, add now url data c1, rt1)))"

text \<open>
  \<^verbatim>\<open>pageURL || `${baseURL}/location-area?offset=0&limit=20`\<close>: an absent argument and
  the empty string are both falsy.
\<close>

definition fetchLocations_url :: "string option \<Rightarrow> string" where
  "fetchLocations_url pageURL =
     (case pageURL of
        None \<Rightarrow> baseURL @ ''/location-area?offset=0&limit=20''
      | Some u \<Rightarrow> if u = [] then baseURL @ ''/location-area?offset=0&limit=20'' else u)"

definition fetchLocation_url :: "string \<Rightarrow> string" where
  "fetchLocation_url locationName = baseURL @ ''/location-area/'' @ locationName"

definition fetchPokemon_url :: "string \<Rightarrow> string" where
  "fetchPokemon_url pokemonName = baseURL @ ''/pokemon/'' @ pokemonName"

definition fetchLocations ::
  "network \<Rightarrow> int \<Rightarrow> string option \<Rightarrow> Cache \<Rightarrow> runtime \<Rightarrow> (error + jsval) \<times> Cache \<times> runtime"
where
  "fetchLocations net now pageURL c rt = cached_fetch net now (fetchLocations_url pageURL) c rt"

definition fetchLocation ::
  "network \<Rightarrow> int \<Rightarrow> string \<Rightarrow> Cache \<Rightarrow> runtime \<Rightarrow> (error + jsval) \<times> Cache \<times> runtime"
where
  "fetchLocation net now locationName c rt =
     cached_fetch net now (fetchLocation_url locationName) c rt"

definition fetchPokemon ::
  "network \<Rightarrow> int \<Rightarrow> string \<Rightarrow> Cache \<Rightarrow> runtime \<Rightarrow> (error + jsval) \<times> Cache \<times> runtime"
where
  "fetchPokemon net now pokemonName c rt =
     cached_fetch net now (fetchPokemon_url pokemonName) c rt"

text \<open>
  What can happen to a \<^verbatim>\<open>PokeAPI\<close> object between two calls: the sweep fires, or one of
  the three fetchers is called, each with the network of that moment.
\<close>

datatype event =
    Tick int
  | FetchLocations network int "string option"
  | FetchLocation network int string
  | FetchPokemon network int string

fun step :: "event \<Rightarrow> Cache \<times> runtime \<Rightarrow> Cache \<times> runtime" where
  "step (Tick now) (c, rt) = (reap now c, rt)"
| "step (FetchLocations net now pageURL) (c, rt) = snd (fetchLocations net now pageURL c rt)"
| "step (FetchLocation net now n) (c, rt) = snd (fetchLocation net now n c rt)"
| "step (FetchPokemon net now n) (c, rt) = snd (fetchPokemon net now n c rt)"

definition run :: "event list \<Rightarrow> Cache \<times> runtime \<Rightarrow> Cache \<times> runtime" where
  "run es s = fold step es s"

text \<open>The runtime at the start of the process: no timer, no request.\<close>

definition rt0 :: runtime where
  "rt0 = \<lparr>timers = [], next_timer = 0, requests = []\<rparr>"

text \<open>Sample data: a decoded record, and three states of the network.\<close>

definition pikachu :: jsval where
  "pikachu = JObj [(''name'', JStr ''pikachu''), (''base_experience'', JNum 112)]"

definition up :: network where
  "up url = Some \<lparr>status = 200, body = Some pikachu\<rparr>"

definition down :: network where
  "down url = None"

definition not_found :: network where
  "not_found url = Some \<lparr>status = 404, body = None\<rparr>"

section \<open>Facts about the cache\<close>

lemma impl_of_reap_loop:
  "DAList.impl_of (reap_loop cutoff xs m) =
     filter (\<lambda>(k, e). \<not> (\<exists>e'. (k, e') \<in> set xs \<and> createdAt e' < cutoff)) (DAList.impl_of m)"
proof (induction xs arbitrary: m)
  case Nil
  then show ?case by simp
next
  case (Cons x xs)
  obtain key entry where x: "x = (key, entry)" by (cases x)
  show ?case
    unfolding x by (auto simp: Cons.IH delete.rep_eq AList.delete_eq intro!: filter_cong)
qed

lemma in_impl_of_iff: "(k, e) \<in> set (DAList.impl_of m) \<longleftrightarrow> DAList.lookup m k = Some e"
  by (simp add: lookup.rep_eq)

lemma impl_of_reap:
  "DAList.impl_of (cache (reap now c)) =
     filter (\<lambda>(k, e). \<not> createdAt e < now - interval c) (DAList.impl_of (cache c))"
proof -
  have "filter (\<lambda>(k, e). \<not> (\<exists>e'. (k, e') \<in> set (DAList.impl_of (cache c)) \<and> createdAt e' < now - interval c))
          (DAList.impl_of (cache c))
        = filter (\<lambda>(k, e). \<not> createdAt e < now - interval c) (DAList.impl_of (cache c))"
    by (rule filter_cong) (auto simp: in_impl_of_iff)
  then show ?thesis
    by (simp add: reap_def Let_def impl_of_reap_loop)
qed

lemma map_of_filter_absent: "k \<notin> fst ` set xs \<Longrightarrow> map_of (filter P xs) k = None"
  by (induction xs) auto

lemma map_of_filter_distinct:
  "distinct (map fst xs) \<Longrightarrow>
   map_of (filter P xs) k =
     (case map_of xs k of None \<Rightarrow> None | Some e \<Rightarrow> if P (k, e) then Some e else None)"
proof (induction xs)
  case Nil
  then show ?case by simp
next
  case (Cons x xs)
  then show ?case
    by (cases x) (auto simp: map_of_filter_absent split: option.splits)
qed

lemma lookup_reap:
  "DAList.lookup (cache (reap now c)) k =
     (case DAList.lookup (cache c) k of
        None \<Rightarrow> None
      | Some e \<Rightarrow> if createdAt e < now - interval c then None else Some e)"
  by (simp add: lookup.rep_eq impl_of_reap map_of_filter_distinct split: option.splits)

lemma reap_fields [simp]:
  "interval (reap now c) = interval c" "reapIntervalId (reap now c) = reapIntervalId c"
  by (simp_all add: reap_def Let_def)

lemma sweeps_fields [simp]:
  "interval (sweeps ss c) = interval c" "reapIntervalId (sweeps ss c) = reapIntervalId c"
  by (induction ss arbitrary: c) (simp_all add: sweeps_def)

lemma sweeps_simps [simp]:
  "sweeps [] c = c" "sweeps (s # ss) c = sweeps ss (reap s c)"
  by (simp_all add: sweeps_def)

lemma lookup_sweeps:
  "DAList.lookup (cache (sweeps ss c)) k =
     (case DAList.lookup (cache c) k of
        None \<Rightarrow> None
      | Some e \<Rightarrow> if \<exists>s\<in>set ss. createdAt e < s - interval c then None else Some e)"
proof (induction ss arbitrary: c)
  case Nil
  then show ?case by (simp split: option.splits)
next
  case (Cons s ss)
  then show ?case by (simp add: lookup_reap split: option.splits)
qed

lemma add_fields [simp]:
  "interval (add now k v c) = interval c" "reapIntervalId (add now k v c) = reapIntervalId c"
  by (simp_all add: add_def)

lemma lookup_add:
  "DAList.lookup (cache (add now k v c)) k' =
     (if k' = k then Some \<lparr>createdAt = now, val = v\<rparr> else DAList.lookup (cache c) k')"
  by (simp add: add_def lookup_update)

lemma snd_get [simp]: "snd (get k c) = c"
  by (simp add: get_def split: option.splits)

lemma fst_get:
  "fst (get k c) = (case DAList.lookup (cache c) k of None \<Rightarrow> JUndefined | Some e \<Rightarrow> val e)"
  by (simp add: get_def split: option.splits)

lemma length_update:
  "length (AList.update k e xs) = (if k \<in> fst ` set xs then length xs else Suc (length xs))"
  by (induction xs) auto

lemma Cache_new_eq:
  "Cache_new T rt =
     (\<lparr>cache = DAList.empty, reapIntervalId = Some (next_timer rt), interval = T\<rparr>,
      rt\<lparr>timers := timers rt @ [(next_timer rt, T)], next_timer := Suc (next_timer rt)\<rparr>)"
  by (simp add: Cache_new_def startReapLoop_def setInterval_def)

lemma stop_twice:
  "stopReapLoop (fst (stopReapLoop c rt)) (snd (stopReapLoop c rt)) = stopReapLoop c rt"
  by (simp add: stopReapLoop_def split: option.splits)

lemma not_running_clear: "\<not> running h (clearInterval h rt)"
  by (auto simp: running_def clearInterval_def)

lemma stop_times_Suc: "stopReapLoop_times (Suc n) (c, rt) = stopReapLoop c rt"
proof (induction n arbitrary: c rt)
  case 0
  then show ?case by simp
next
  case (Suc n)
  have "stopReapLoop_times (Suc (Suc n)) (c, rt) =
          stopReapLoop_times (Suc n) (fst (stopReapLoop c rt), snd (stopReapLoop c rt))"
    by simp
  also have "\<dots> = stopReapLoop (fst (stopReapLoop c rt)) (snd (stopReapLoop c rt))"
    by (rule Suc.IH)
  finally show ?case by (simp add: stop_twice)
qed

text \<open>
  A timer that fires on schedule has fired strictly later than \<open>t0 + T\<close> by the time
  \<open>t0 + 2 * T\<close>, whenever it was started no later than \<open>t0\<close>.
\<close>

lemma late_tick:
  fixes T :: int
  assumes "0 < T" "start \<le> t0" "t0 + 2 * T \<le> now"
  shows "\<exists>s\<in>set (ticks_until start T now). t0 + T < s"
proof -
  let ?q = "(now - start) div T"
  have m: "(now - start) mod T < T" using assms(1) by simp
  have e: "?q * T + (now - start) mod T = now - start" by simp
  have "2 * T \<le> now - start" using assms by simp
  then have "(2 * T) div T \<le> ?q" using assms(1) by (rule zdiv_mono1)
  then have "2 \<le> ?q" using assms(1) by simp
  then have "?q \<in> {1..?q}" by simp
  then have "start + ?q * T \<in> set (ticks_until start T now)"
    unfolding ticks_until_def by (simp only: set_map set_upto image_eqI)
  moreover have "t0 + T < start + ?q * T" using m e assms by linarith
  ultimately show ?thesis by blast
qed

lemma ticks_260: "ticks_until 0 100 260 = [100, 200]"
  by (simp add: ticks_until_def upto.simps)

lemma count_key_distinct:
  "distinct (map fst xs) \<Longrightarrow> k \<in> fst ` set xs \<Longrightarrow> length (filter (\<lambda>(k', e). k' = k) xs) = 1"
proof (induction xs)
  case Nil
  then show ?case by simp
next
  case (Cons x xs)
  show ?case
  proof (cases "fst x = k")
    case True
    with Cons.prems have "k \<notin> fst ` set xs" by auto
    then have "filter (\<lambda>(k', e). k' = k) xs = []"
      by (force simp: filter_empty_conv)
    with True show ?thesis by (cases x) simp
  next
    case False
    with Cons show ?thesis by (cases x) auto
  qed
qed

lemma get_sweeps_falsy:
  "\<not> truthy (fst (get k c)) \<Longrightarrow> \<not> truthy (fst (get k (sweeps ss c)))"
  by (simp add: fst_get lookup_sweeps split: option.splits if_splits)

section \<open>Facts about the fetchers\<close>

lemma cached_fetch_unfold:
  "cached_fetch net now url c rt =
     (if truthy (fst (get url c)) then (Inr (fst (get url c)), c, rt)
      else
        case net url of
          None \<Rightarrow> (Inl NetworkFailure, c, rt\<lparr>requests := requests rt @ [url]\<rparr>)
        | Some r \<Rightarrow>
            if \<not> ok r then
              (Inl (Error (''HTTP error! status: '' @ show_nat (status r))), c,
               rt\<lparr>requests := requests rt @ [url]\<rparr>)
            else
              (case body r of
                 None \<Rightarrow> (Inl DecodeError, c, rt\<lparr>requests := requests rt @ [url]\<rparr>)
               | Some data \<Rightarrow>
                   (Inr data, add now url data c, rt\<lparr>requests := requests rt @ [url]\<rparr>)))"
  by (simp add: cached_fetch_def case_prod_beta Let_def)

lemma cached_fetch_hit:
  "truthy (fst (get url c)) \<Longrightarrow> cached_fetch net now url c rt = (Inr (fst (get url c)), c, rt)"
  by (simp add: cached_fetch_unfold)

lemma cached_fetch_stored:
  "\<not> truthy (fst (get url c)) \<Longrightarrow> net url = Some r \<Longrightarrow> ok r \<Longrightarrow> body r = Some d \<Longrightarrow>
   cached_fetch net now url c rt =
     (Inr d, add now url d c, rt\<lparr>requests := requests rt @ [url]\<rparr>)"
  by (simp add: cached_fetch_unfold)

lemma cached_fetch_status:
  "\<not> truthy (fst (get url c)) \<Longrightarrow> net url = Some r \<Longrightarrow> \<not> ok r \<Longrightarrow>
   cached_fetch net now url c rt =
     (Inl (Error (''HTTP error! status: '' @ show_nat (status r))), c,
      rt\<lparr>requests := requests rt @ [url]\<rparr>)"
  by (simp add: cached_fetch_unfold)

lemma cached_fetch_miss_requests:
  "\<not> truthy (fst (get url c)) \<Longrightarrow>
   requests (snd (snd (cached_fetch net now url c rt))) = requests rt @ [url]"
  by (simp add: cached_fetch_unfold split: option.splits)

lemma cached_fetch_keeps:
  assumes "DAList.lookup (cache c) url = Some e" "truthy (val e)"
  shows "DAList.lookup (cache (fst (snd (cached_fetch net now url' c rt)))) url = Some e
         \<and> interval (fst (snd (cached_fetch net now url' c rt))) = interval c"
proof (cases "url' = url")
  case True
  with assms have "truthy (fst (get url' c))" by (simp add: fst_get)
  then show ?thesis using assms by (simp add: cached_fetch_hit)
next
  case False
  with assms show ?thesis
    by (simp add: cached_fetch_unfold lookup_add split: option.splits)
qed

lemma step_keeps:
  assumes "DAList.lookup (cache c) url = Some e" "truthy (val e)"
    and "\<forall>s. ev = Tick s \<longrightarrow> s \<le> createdAt e + interval c"
  shows "DAList.lookup (cache (fst (step ev (c, rt)))) url = Some e
         \<and> interval (fst (step ev (c, rt))) = interval c"
proof (cases ev)
  case (Tick s)
  with assms show ?thesis by (simp add: lookup_reap)
next
  case (FetchLocations net now p)
  with assms show ?thesis by (simp add: fetchLocations_def cached_fetch_keeps)
next
  case (FetchLocation net now n)
  with assms show ?thesis by (simp add: fetchLocation_def cached_fetch_keeps)
next
  case (FetchPokemon net now n)
  with assms show ?thesis by (simp add: fetchPokemon_def cached_fetch_keeps)
qed

lemma run_keeps:
  assumes "DAList.lookup (cache c) url = Some e" "truthy (val e)"
    and "\<forall>s. Tick s \<in> set es \<longrightarrow> s \<le> createdAt e + interval c"
  shows "DAList.lookup (cache (fst (run es (c, rt)))) url = Some e"
  using assms
proof (induction es arbitrary: c rt)
  case Nil
  then show ?case by (simp add: run_def)
next
  case (Cons ev es)
  obtain c' rt' where s: "step ev (c, rt) = (c', rt')" by (cases "step ev (c, rt)")
  have "\<forall>s. ev = Tick s \<longrightarrow> s \<le> createdAt e + interval c" using Cons.prems(3) by simp
  from step_keeps [OF Cons.prems(1,2) this, of rt]
  have k: "DAList.lookup (cache c') url = Some e" "interval c' = interval c"
    by (simp_all add: s)
  have "DAList.lookup (cache (fst (run es (c', rt')))) url = Some e"
    using k Cons.prems by (intro Cons.IH) simp_all
  then show ?case by (simp add: run_def s)
qed

lemma cached_fetch_miss_then_hit:
  assumes miss: "\<not> truthy (fst (get url c))"
    and net: "net url = Some r" "ok r" "body r = Some d"
    and d: "truthy d"
    and ttl: "t1 \<le> t0 + interval c"
    and ticks: "\<forall>s. Tick s \<in> set es \<longrightarrow> s \<le> t1"
  shows "cached_fetch net t0 url c rt =
           (Inr d, add t0 url d c, rt\<lparr>requests := requests rt @ [url]\<rparr>)
    \<and> cached_fetch net' t1 url
           (fst (run es (add t0 url d c, rt\<lparr>requests := requests rt @ [url]\<rparr>)))
           (snd (run es (add t0 url d c, rt\<lparr>requests := requests rt @ [url]\<rparr>))) =
         (Inr d, run es (add t0 url d c, rt\<lparr>requests := requests rt @ [url]\<rparr>))"
proof -
  have first: "cached_fetch net t0 url c rt =
           (Inr d, add t0 url d c, rt\<lparr>requests := requests rt @ [url]\<rparr>)"
    using miss net by (rule cached_fetch_stored)
  let ?e = "\<lparr>createdAt = t0, val = d\<rparr>"
  let ?s = "run es (add t0 url d c, rt\<lparr>requests := requests rt @ [url]\<rparr>)"
  have l: "DAList.lookup (cache (add t0 url d c)) url = Some ?e"
    by (simp add: lookup_add)
  have "\<forall>s. Tick s \<in> set es \<longrightarrow> s \<le> createdAt ?e + interval (add t0 url d c)"
    using ttl ticks by fastforce
  with l have "DAList.lookup (cache (fst ?s)) url = Some ?e"
    using d by (intro run_keeps) simp_all
  then have "fst (get url (fst ?s)) = d" by (simp add: fst_get)
  with d have "cached_fetch net' t1 url (fst ?s) (snd ?s) = (Inr d, ?s)"
    by (simp add: cached_fetch_hit)
  with first show ?thesis by simp
qed

lemma PokeAPI_new_miss: "\<not> truthy (fst (get url (fst (PokeAPI_new rt))))"
  by (simp add: PokeAPI_new_def Cache_new_eq fst_get)

lemma show_nat_404: "show_nat 404 = ''404''"
  by (simp add: show_nat.simps digit_def)

lemma cached_fetch_key:
  "requests (snd (snd (cached_fetch net now url c rt))) =
       (if truthy (fst (get url c)) then requests rt else requests rt @ [url])
   \<and> (fst (snd (cached_fetch net now url c rt)) = c
        \<or> (\<exists>d. fst (snd (cached_fetch net now url c rt)) = add now url d c))"
  by (auto simp add: cached_fetch_unfold split: option.splits)

section \<open>The cache: reading, writing, expiry\<close>

text \<open>
  C4. For all keys \<open>k\<close> and values \<open>v\<close>, \<open>add\<close> followed immediately by \<open>get\<close> of the
  same key answers \<open>v\<close>. \<open>add\<close> has no result besides the new state and no failing
  branch; it evicts nothing, whatever the size of the map: every other key reads as
  before, and the number of entries stays (key present) or grows by one (key new). The
  interval and the timer handle are untouched.
\<close>

theorem add_then_get:
  "fst (get k (add now k v c)) = v
   \<and> (\<forall>k'. fst (get k' (add now k v c)) = (if k' = k then v else fst (get k' c)))
   \<and> length (DAList.impl_of (cache (add now k v c))) =
       (if k \<in> fst ` set (DAList.impl_of (cache c))
        then length (DAList.impl_of (cache c))
        else Suc (length (DAList.impl_of (cache c))))
   \<and> interval (add now k v c) = interval c
   \<and> reapIntervalId (add now k v c) = reapIntervalId c"
proof -
  have "length (DAList.impl_of (cache (add now k v c))) =
       (if k \<in> fst ` set (DAList.impl_of (cache c))
        then length (DAList.impl_of (cache c))
        else Suc (length (DAList.impl_of (cache c))))"
    by (simp add: add_def update.rep_eq length_update)
  then show ?thesis
    by (simp add: fst_get lookup_add)
qed

text \<open>
  C10. \<open>get\<close> never changes the cache: for every key, whether present, absent or older
  than the interval, the state after the call is the state before it (the entries in
  their order, their values, their \<open>createdAt\<close>, the interval and the timer handle). An
  entry older than the interval is still in the map after it has been read.
\<close>

theorem get_read_only:
  "snd (get k c) = c
   \<and> DAList.impl_of (cache (snd (get k c))) = DAList.impl_of (cache c)
   \<and> DAList.lookup (cache (snd (get k (add t0 k v c)))) k = Some \<lparr>createdAt = t0, val = v\<rparr>"
  by (simp add: get_def lookup_add split: option.splits)

text \<open>
  C1, as the claim states it, fails. In a cache with interval 100, after \<open>add\<close> of
  \<open>''a''\<close> at time 0 and with no sweep in between, the read path of the specification
  answers absent at time 151 (later than \<open>0 + 100\<close>), while \<open>get\<close>, which reads no
  clock, still answers the value.
\<close>

theorem get_ignores_expiry_counterexample:
  "(0::int) + 100 < 151
   \<and> interval (add 0 ''a'' (JStr ''x'') (fst (Cache_new 100 rt0))) = 100
   \<and> spec_get 151 ''a'' (add 0 ''a'' (JStr ''x'') (fst (Cache_new 100 rt0))) = JUndefined
   \<and> fst (get ''a'' (add 0 ''a'' (JStr ''x'') (fst (Cache_new 100 rt0)))) = JStr ''x''"
  by (simp add: spec_get_def fst_get lookup_add Cache_new_eq)

text \<open>
  C1, amended. After \<open>add\<close> of \<open>k\<close> with \<open>v\<close> at time \<open>t0\<close>, followed by sweeps at the
  times \<open>ss\<close> and nothing else, \<open>get\<close> of \<open>k\<close> answers absent exactly when one of the
  sweeps ran later than \<open>t0 + ttl\<close>, and answers \<open>v\<close> otherwise, however late the
  \<open>get\<close> is made. Expiry is enforced by the sweep alone.
\<close>

theorem get_after_sweeps:
  "fst (get k (sweeps ss (add t0 k v c))) =
     (if \<exists>s\<in>set ss. t0 + interval c < s then JUndefined else v)"
  by (auto simp add: fst_get lookup_sweeps lookup_add)

text \<open>
  C1, amended, at an input: interval 100, \<open>add\<close> at 0. After the sweep at 100 the value
  is still read; after the sweeps at 100 and 200 it is absent.
\<close>

theorem get_after_sweeps_witness:
  "fst (get ''a'' (sweeps [100] (add 0 ''a'' (JStr ''x'') (fst (Cache_new 100 rt0))))) = JStr ''x''
   \<and> fst (get ''a'' (sweeps [100, 200] (add 0 ''a'' (JStr ''x'') (fst (Cache_new 100 rt0))))) = JUndefined"
  using get_after_sweeps [of "''a''" "[100]" 0 "JStr ''x''" "fst (Cache_new 100 rt0)"]
    get_after_sweeps [of "''a''" "[100, 200]" 0 "JStr ''x''" "fst (Cache_new 100 rt0)"]
  by (simp add: Cache_new_eq)

text \<open>
  C5. The sweep is registered with the interval as its delay. A sweep at time \<open>now\<close>
  computes \<open>cutoff = now - interval\<close> and, in one pass, removes exactly the entries with
  \<open>createdAt < cutoff\<close>: the map afterwards is the map before with those entries
  filtered out, in the same order, and nothing else changes. Consequently, for a positive
  interval and a timer started no later than the \<open>add\<close> and firing on schedule, an entry
  added at \<open>t0\<close> and not written again is gone from the map at every time from
  \<open>t0 + 2 * interval\<close> on, one full interval past its expiry: the sweeps that ran since
  the \<open>add\<close> have removed it.
\<close>

theorem reap_removes_expired:
  "DAList.impl_of (cache (reap now c)) =
     filter (\<lambda>(k, e). \<not> createdAt e < now - interval c) (DAList.impl_of (cache c))
   \<and> interval (reap now c) = interval c
   \<and> reapIntervalId (reap now c) = reapIntervalId c
   \<and> timers (snd (Cache_new T rt)) = timers rt @ [(next_timer rt, T)]
   \<and> (0 < interval c \<and> start \<le> t0 \<and> t0 + 2 * interval c \<le> t \<longrightarrow>
        DAList.lookup
          (cache (sweeps (filter (\<lambda>s. t0 \<le> s) (ticks_until start (interval c) t)) (add t0 k v c)))
          k = None)"
proof -
  let ?ss = "filter (\<lambda>s. t0 \<le> s) (ticks_until start (interval c) t)"
  have "DAList.lookup (cache (sweeps ?ss (add t0 k v c))) k = None"
    if h: "0 < interval c" "start \<le> t0" "t0 + 2 * interval c \<le> t"
  proof -
    obtain s where s: "s \<in> set (ticks_until start (interval c) t)" "t0 + interval c < s"
      using late_tick [OF h] by blast
    from s(2) h(1) have "t0 < s - interval c" "t0 \<le> s" by simp_all
    with s(1) have "\<exists>s\<in>set ?ss. t0 < s - interval c"
      by auto
    then show ?thesis
      by (simp add: lookup_sweeps lookup_add)
  qed
  then show ?thesis
    by (simp add: impl_of_reap Cache_new_eq)
qed

text \<open>
  C5 at an input: interval 100, timer started and entry added at time 0. Up to time 260
  the timer has fired at 100 and 200, and the entry is gone.
\<close>

theorem reap_removes_expired_witness:
  "(0::int) < 100 \<and> (0::int) \<le> 0 \<and> (0::int) + 2 * 100 \<le> 260
   \<and> filter (\<lambda>s. 0 \<le> s) (ticks_until 0 100 260) = [100, 200]
   \<and> DAList.lookup (cache (sweeps [100, 200] (add 0 ''a'' (JStr ''x'') (fst (Cache_new 100 rt0))))) ''a'' = None"
  using reap_removes_expired [of 260 "fst (Cache_new 100 rt0)" 100 rt0 0 0 260 "''a''" "JStr ''x''"]
  by (simp add: Cache_new_eq ticks_260)

text \<open>
  C6. \<open>add\<close> of a key that has an entry replaces it: the map then holds exactly one
  entry for the key, with the new value and the clock reading of the second \<open>add\<close> as
  its \<open>createdAt\<close>. So after \<open>add\<close> of \<open>v1\<close> at \<open>t0\<close> and \<open>add\<close> of \<open>v2\<close> at \<open>t1\<close>, with
  any sweeps in between, \<open>get\<close> answers \<open>v2\<close> as long as every sweep since the second
  \<open>add\<close> ran no later than \<open>t1 + ttl\<close>. In particular, with the second \<open>add\<close> at
  \<open>t0 + T/2\<close> and every sweep no later than \<open>t0 + T + \<epsilon>\<close>, where \<open>0 < \<epsilon> \<le> T/2\<close>,
  \<open>get\<close> answers \<open>v2\<close>.
\<close>

theorem add_overwrites:
  "DAList.lookup (cache (add t1 k v2 (sweeps ss1 (add t0 k v1 c)))) k = Some \<lparr>createdAt = t1, val = v2\<rparr>
   \<and> length (filter (\<lambda>(k', e). k' = k) (DAList.impl_of (cache (add t1 k v2 (sweeps ss1 (add t0 k v1 c)))))) = 1
   \<and> ((\<forall>s\<in>set ss2. s \<le> t1 + interval c) \<longrightarrow>
        fst (get k (sweeps ss2 (add t1 k v2 (sweeps ss1 (add t0 k v1 c))))) = v2)
   \<and> (0 < \<epsilon> \<and> \<epsilon> \<le> interval c div 2 \<and> (\<forall>s\<in>set ss2. s \<le> t0 + interval c + \<epsilon>) \<longrightarrow>
        fst (get k (sweeps ss2 (add (t0 + interval c div 2) k v2 (sweeps ss1 (add t0 k v1 c))))) = v2)"
proof -
  let ?c1 = "sweeps ss1 (add t0 k v1 c)"
  have l: "DAList.lookup (cache (add t k v2 ?c1)) k = Some \<lparr>createdAt = t, val = v2\<rparr>" for t
    by (simp add: lookup_add)
  then have "k \<in> fst ` set (DAList.impl_of (cache (add t1 k v2 ?c1)))"
    by (metis in_impl_of_iff fst_conv image_eqI)
  then have n: "length (filter (\<lambda>(k', e). k' = k) (DAList.impl_of (cache (add t1 k v2 ?c1)))) = 1"
    by (intro count_key_distinct) simp_all
  have g: "fst (get k (sweeps ss2 (add t k v2 ?c1))) = v2"
    if "\<forall>s\<in>set ss2. s \<le> t + interval c" for t
  proof -
    have "\<not> (\<exists>s\<in>set ss2. t < s - interval c)" using that by fastforce
    then show ?thesis by (simp add: fst_get lookup_sweeps l)
  qed
  have "fst (get k (sweeps ss2 (add (t0 + interval c div 2) k v2 ?c1))) = v2"
    if "\<epsilon> \<le> interval c div 2" "\<forall>s\<in>set ss2. s \<le> t0 + interval c + \<epsilon>"
  proof (rule g)
    show "\<forall>s\<in>set ss2. s \<le> t0 + interval c div 2 + interval c"
      using that by fastforce
  qed
  with l [of t1] n g [of t1] show ?thesis by blast
qed

text \<open>
  C6 at an input: interval 100, \<open>add\<close> of \<open>''x''\<close> at 0, \<open>add\<close> of \<open>''y''\<close> at 50, the
  sweep at 100, then \<open>get\<close> at 110 (\<open>\<epsilon> = 10\<close>): the answer is \<open>''y''\<close>.
\<close>

theorem add_overwrites_witness:
  "(0::int) < 10 \<and> (10::int) \<le> 100 div 2 \<and> (100::int) \<le> 0 + 100 + 10
   \<and> fst (get ''a'' (sweeps [100] (add 50 ''a'' (JStr ''y'')
        (sweeps [] (add 0 ''a'' (JStr ''x'') (fst (Cache_new 100 rt0))))))) = JStr ''y''"
  using add_overwrites [of 50 "''a''" "JStr ''y''" "[]" 0 "JStr ''x''" "fst (Cache_new 100 rt0)" "[100]" 10]
  by (simp add: Cache_new_eq)

section \<open>The cache: construction and shutdown\<close>

text \<open>
  C7. \<open>stopReapLoop\<close> is idempotent: it has no failing branch, any number of calls in
  a row leaves the state the first call left, and a call on a stopped cache changes
  nothing. After the first call the handle is cleared and the timer the cache held is no
  longer registered with the runtime; the entries and the interval are untouched.
\<close>

theorem stopReapLoop_idempotent:
  "stopReapLoop_times (Suc n) (c, rt) = stopReapLoop c rt
   \<and> stopReapLoop (fst (stopReapLoop c rt)) (snd (stopReapLoop c rt)) = stopReapLoop c rt
   \<and> reapIntervalId (fst (stopReapLoop c rt)) = None
   \<and> (\<forall>h. reapIntervalId c = Some h \<longrightarrow> \<not> running h (snd (stopReapLoop c rt)))
   \<and> cache (fst (stopReapLoop c rt)) = cache c
   \<and> interval (fst (stopReapLoop c rt)) = interval c"
proof -
  have "reapIntervalId (fst (stopReapLoop c rt)) = None"
    by (simp add: stopReapLoop_def split: option.splits)
  moreover have "\<forall>h. reapIntervalId c = Some h \<longrightarrow> \<not> running h (snd (stopReapLoop c rt))"
    by (simp add: stopReapLoop_def not_running_clear)
  moreover have "cache (fst (stopReapLoop c rt)) = cache c"
    "interval (fst (stopReapLoop c rt)) = interval c"
    by (simp_all add: stopReapLoop_def split: option.splits)
  ultimately show ?thesis
    using stop_times_Suc [of n c rt] stop_twice [of c rt] by simp
qed

text \<open>
  C7 at an input: a cache constructed with interval 100 holds the handle 0 and its timer
  runs; after \<open>stopReapLoop\<close> the timer no longer runs, and three calls in a row leave
  what one call leaves.
\<close>

theorem stopReapLoop_idempotent_witness:
  "reapIntervalId (fst (Cache_new 100 rt0)) = Some 0
   \<and> running 0 (snd (Cache_new 100 rt0))
   \<and> \<not> running 0 (snd (stopReapLoop (fst (Cache_new 100 rt0)) (snd (Cache_new 100 rt0))))
   \<and> stopReapLoop_times 3 (Cache_new 100 rt0) =
       stopReapLoop (fst (Cache_new 100 rt0)) (snd (Cache_new 100 rt0))"
proof -
  have h: "reapIntervalId (fst (Cache_new 100 rt0)) = Some 0"
    by (simp add: Cache_new_eq rt0_def)
  have r: "running 0 (snd (Cache_new 100 rt0))"
    by (simp add: Cache_new_eq rt0_def running_def)
  have "stopReapLoop_times (Suc 2) (fst (Cache_new 100 rt0), snd (Cache_new 100 rt0)) =
      stopReapLoop (fst (Cache_new 100 rt0)) (snd (Cache_new 100 rt0))"
    using stopReapLoop_idempotent [of 2 "fst (Cache_new 100 rt0)" "snd (Cache_new 100 rt0)"]
    by blast
  then have t: "stopReapLoop_times 3 (Cache_new 100 rt0) =
      stopReapLoop (fst (Cache_new 100 rt0)) (snd (Cache_new 100 rt0))"
    by (simp add: numeral_3_eq_3)
  show ?thesis
    using h r t stopReapLoop_idempotent [of 2 "fst (Cache_new 100 rt0)" "snd (Cache_new 100 rt0)"]
    by blast
qed

text \<open>
  C9, as the claim states it, fails: the constructor has no check of its argument. With
  the interval 0, and with the interval -5, it answers a cache with an empty map, that
  interval, and a running timer.
\<close>

theorem Cache_new_nonpositive_counterexample:
  "fst (Cache_new 0 rt0) = \<lparr>cache = DAList.empty, reapIntervalId = Some 0, interval = 0\<rparr>
   \<and> running 0 (snd (Cache_new 0 rt0))
   \<and> fst (Cache_new (- 5) rt0) = \<lparr>cache = DAList.empty, reapIntervalId = Some 0, interval = - 5\<rparr>
   \<and> running 0 (snd (Cache_new (- 5) rt0))"
  by (simp add: Cache_new_eq rt0_def running_def)

text \<open>
  C9, amended. For every interval, positive or not, the constructor answers a cache with
  an empty map and that interval, and starts the sweep at once: a fresh timer with the
  interval as its delay is registered with the runtime and its handle is kept.
\<close>

theorem Cache_new_any_interval:
  "Cache_new T rt =
     (\<lparr>cache = DAList.empty, reapIntervalId = Some (next_timer rt), interval = T\<rparr>,
      rt\<lparr>timers := timers rt @ [(next_timer rt, T)], next_timer := Suc (next_timer rt)\<rparr>)
   \<and> DAList.impl_of (cache (fst (Cache_new T rt))) = []
   \<and> running (next_timer rt) (snd (Cache_new T rt))"
  by (simp add: Cache_new_eq running_def empty.rep_eq)

section \<open>The fetchers\<close>

text \<open>
  C8. Each operation computes its request URL, which is also its cache key, from its
  argument alone. The list fetch with no argument uses the first page with offset 0 and
  limit 20; with a page URL it uses exactly that URL (the empty string is falsy and counts
  as no argument); each by-name fetch appends the name to its fixed path. Every fetcher
  is the common body at that URL: the cache is read under the URL, a network call, when
  one is made, goes to the URL, and the only write to the cache is an \<open>add\<close> under the
  URL.
\<close>

theorem request_urls:
  "fetchLocations_url None = ''https://pokeapi.co/api/v2/location-area?offset=0&limit=20''
   \<and> fetchLocations_url (Some u) =
       (if u = [] then ''https://pokeapi.co/api/v2/location-area?offset=0&limit=20'' else u)
   \<and> fetchLocation_url n = ''https://pokeapi.co/api/v2/location-area/'' @ n
   \<and> fetchPokemon_url n = ''https://pokeapi.co/api/v2/pokemon/'' @ n
   \<and> fetchLocations net now p c rt = cached_fetch net now (fetchLocations_url p) c rt
   \<and> fetchLocation net now n c rt = cached_fetch net now (fetchLocation_url n) c rt
   \<and> fetchPokemon net now n c rt = cached_fetch net now (fetchPokemon_url n) c rt
   \<and> requests (snd (snd (cached_fetch net now url c rt))) =
       (if truthy (fst (get url c)) then requests rt else requests rt @ [url])
   \<and> (fst (snd (cached_fetch net now url c rt)) = c
        \<or> (\<exists>d. fst (snd (cached_fetch net now url c rt)) = add now url d c))"
proof -
  have "fetchLocations_url None = ''https://pokeapi.co/api/v2/location-area?offset=0&limit=20''"
    "fetchLocations_url (Some u) =
       (if u = [] then ''https://pokeapi.co/api/v2/location-area?offset=0&limit=20'' else u)"
    by (simp_all add: fetchLocations_url_def baseURL_def)
  moreover have "fetchLocation_url n = ''https://pokeapi.co/api/v2/location-area/'' @ n"
    "fetchPokemon_url n = ''https://pokeapi.co/api/v2/pokemon/'' @ n"
    by (simp_all add: fetchLocation_url_def fetchPokemon_url_def baseURL_def)
  ultimately show ?thesis
    using cached_fetch_key [of net now url c rt]
    by (simp only: fetchLocations_def fetchLocation_def fetchPokemon_def simp_thms)
qed

text \<open>
  C3. When nothing truthy is cached for the URL of name \<open>n\<close> (a first call) and the
  network answers with an ok status and a body that decodes to a record \<open>d\<close> (any truthy
  value), \<open>fetchPokemon\<close> makes exactly one network call, to that URL, answers \<open>d\<close> and
  stores it under the URL with the time of the call. After any events in between (sweeps
  and other fetches, succeeding or failing), a second call for the same name at a time
  \<open>t1\<close> within the TTL of the first answers the same \<open>d\<close>, makes no network call and
  leaves the cache and the request log as they were, whatever the network would answer.
\<close>

theorem fetch_miss_then_hit:
  "\<not> truthy (fst (get (fetchPokemon_url n) c)) \<Longrightarrow>
   net (fetchPokemon_url n) = Some r \<Longrightarrow> ok r \<Longrightarrow> body r = Some d \<Longrightarrow> truthy d \<Longrightarrow>
   t1 \<le> t0 + interval c \<Longrightarrow> \<forall>s. Tick s \<in> set es \<longrightarrow> s \<le> t1 \<Longrightarrow>
   fetchPokemon net t0 n c rt =
     (Inr d, add t0 (fetchPokemon_url n) d c, rt\<lparr>requests := requests rt @ [fetchPokemon_url n]\<rparr>)
   \<and> fetchPokemon net' t1 n
        (fst (run es (snd (fetchPokemon net t0 n c rt))))
        (snd (run es (snd (fetchPokemon net t0 n c rt)))) =
      (Inr d, run es (snd (fetchPokemon net t0 n c rt)))"
  using cached_fetch_miss_then_hit [where url = "fetchPokemon_url n" and net' = net' and rt = rt]
  by (simp add: fetchPokemon_def)

text \<open>
  C3 at an input: a fresh \<open>PokeAPI\<close>, the first call for \<open>''pikachu''\<close> at time 0 with the
  network up, a sweep at time 300000, and a second call at 300000 with the network down:
  the second call answers the record and the log still holds the one request.
\<close>

theorem fetch_miss_then_hit_witness:
  "fetchPokemon up 0 ''pikachu'' (fst (PokeAPI_new rt0)) (snd (PokeAPI_new rt0)) =
     (Inr pikachu,
      add 0 ''https://pokeapi.co/api/v2/pokemon/pikachu'' pikachu (fst (PokeAPI_new rt0)),
      (snd (PokeAPI_new rt0))\<lparr>requests := [''https://pokeapi.co/api/v2/pokemon/pikachu'']\<rparr>)
   \<and> fst (fetchPokemon down 300000 ''pikachu''
        (fst (run [Tick 300000]
           (snd (fetchPokemon up 0 ''pikachu'' (fst (PokeAPI_new rt0)) (snd (PokeAPI_new rt0))))))
        (snd (run [Tick 300000]
           (snd (fetchPokemon up 0 ''pikachu'' (fst (PokeAPI_new rt0)) (snd (PokeAPI_new rt0))))))) =
      Inr pikachu
   \<and> requests (snd (snd (fetchPokemon down 300000 ''pikachu''
        (fst (run [Tick 300000]
           (snd (fetchPokemon up 0 ''pikachu'' (fst (PokeAPI_new rt0)) (snd (PokeAPI_new rt0))))))
        (snd (run [Tick 300000]
           (snd (fetchPokemon up 0 ''pikachu'' (fst (PokeAPI_new rt0)) (snd (PokeAPI_new rt0))))))))) =
      [''https://pokeapi.co/api/v2/pokemon/pikachu'']"
proof -
  have n: "up (fetchPokemon_url ''pikachu'') = Some \<lparr>status = 200, body = Some pikachu\<rparr>"
    by (simp add: up_def)
  have o: "ok \<lparr>status = 200, body = Some pikachu\<rparr>" by (simp add: ok_def)
  have b: "body \<lparr>status = 200, body = Some pikachu\<rparr> = Some pikachu" by simp
  have t: "truthy pikachu" by (simp add: pikachu_def)
  have i: "(300000::int) \<le> 0 + interval (fst (PokeAPI_new rt0))"
    by (simp add: PokeAPI_new_def Cache_new_eq)
  have k: "\<forall>s. Tick s \<in> set [Tick 300000] \<longrightarrow> s \<le> 300000" by simp
  have u: "fetchPokemon_url ''pikachu'' = ''https://pokeapi.co/api/v2/pokemon/pikachu''"
    by (simp add: fetchPokemon_url_def baseURL_def)
  have r: "requests (snd (PokeAPI_new rt0)) = []"
    by (simp add: PokeAPI_new_def Cache_new_eq rt0_def)
  have both:
    "fetchPokemon up 0 ''pikachu'' (fst (PokeAPI_new rt0)) (snd (PokeAPI_new rt0)) =
       (Inr pikachu, add 0 (fetchPokemon_url ''pikachu'') pikachu (fst (PokeAPI_new rt0)),
        (snd (PokeAPI_new rt0))\<lparr>requests :=
           requests (snd (PokeAPI_new rt0)) @ [fetchPokemon_url ''pikachu'']\<rparr>)
     \<and> fetchPokemon down 300000 ''pikachu''
        (fst (run [Tick 300000]
           (snd (fetchPokemon up 0 ''pikachu'' (fst (PokeAPI_new rt0)) (snd (PokeAPI_new rt0))))))
        (snd (run [Tick 300000]
           (snd (fetchPokemon up 0 ''pikachu'' (fst (PokeAPI_new rt0)) (snd (PokeAPI_new rt0)))))) =
      (Inr pikachu, run [Tick 300000]
           (snd (fetchPokemon up 0 ''pikachu'' (fst (PokeAPI_new rt0)) (snd (PokeAPI_new rt0)))))"
    by (rule fetch_miss_then_hit [of "''pikachu''" "fst (PokeAPI_new rt0)" up
        "\<lparr>status = 200, body = Some pikachu\<rparr>" pikachu 300000 0 "[Tick 300000]"
        "snd (PokeAPI_new rt0)" down, OF PokeAPI_new_miss n o b t i k])
  then have first:
    "fetchPokemon up 0 ''pikachu'' (fst (PokeAPI_new rt0)) (snd (PokeAPI_new rt0)) =
       (Inr pikachu, add 0 ''https://pokeapi.co/api/v2/pokemon/pikachu'' pikachu (fst (PokeAPI_new rt0)),
        (snd (PokeAPI_new rt0))\<lparr>requests := [''https://pokeapi.co/api/v2/pokemon/pikachu'']\<rparr>)"
    by (simp add: u r)
  from both have second:
    "fetchPokemon down 300000 ''pikachu''
        (fst (run [Tick 300000]
           (snd (fetchPokemon up 0 ''pikachu'' (fst (PokeAPI_new rt0)) (snd (PokeAPI_new rt0))))))
        (snd (run [Tick 300000]
           (snd (fetchPokemon up 0 ''pikachu'' (fst (PokeAPI_new rt0)) (snd (PokeAPI_new rt0)))))) =
      (Inr pikachu, run [Tick 300000]
           (snd (fetchPokemon up 0 ''pikachu'' (fst (PokeAPI_new rt0)) (snd (PokeAPI_new rt0)))))"
    by (rule conjunct2)
  have "requests (snd (run [Tick 300000]
           (snd (fetchPokemon up 0 ''pikachu'' (fst (PokeAPI_new rt0)) (snd (PokeAPI_new rt0)))))) =
         [''https://pokeapi.co/api/v2/pokemon/pikachu'']"
    by (simp add: first run_def)
  with first second show ?thesis by (simp only: fst_conv snd_conv simp_thms)
qed

text \<open>
  The same holds for \<open>fetchLocation\<close>.
\<close>

lemma fetchLocation_miss_then_hit:
  "\<not> truthy (fst (get (fetchLocation_url n) c)) \<Longrightarrow>
   net (fetchLocation_url n) = Some r \<Longrightarrow> ok r \<Longrightarrow> body r = Some d \<Longrightarrow> truthy d \<Longrightarrow>
   t1 \<le> t0 + interval c \<Longrightarrow> \<forall>s. Tick s \<in> set es \<longrightarrow> s \<le> t1 \<Longrightarrow>
   fetchLocation net t0 n c rt =
     (Inr d, add t0 (fetchLocation_url n) d c, rt\<lparr>requests := requests rt @ [fetchLocation_url n]\<rparr>)
   \<and> fetchLocation net' t1 n
        (fst (run es (snd (fetchLocation net t0 n c rt))))
        (snd (run es (snd (fetchLocation net t0 n c rt)))) =
      (Inr d, run es (snd (fetchLocation net t0 n c rt)))"
  using cached_fetch_miss_then_hit [where url = "fetchLocation_url n" and net' = net' and rt = rt]
  by (simp add: fetchLocation_def)

text \<open>
  C2. When nothing truthy is cached for the URL of the name and the network answers with
  a status that is not ok, \<open>fetchPokemon\<close> and \<open>fetchLocation\<close> each fail with the error
  whose message carries the status in decimal, after one network call, and leave the
  cache exactly as it was. So the next call for the same name, with any sweeps in
  between, calls the network again.
\<close>

theorem fetch_failure_not_cached:
  "(\<not> truthy (fst (get (fetchPokemon_url n) c)) \<and> net (fetchPokemon_url n) = Some r \<and> \<not> ok r \<longrightarrow>
      fetchPokemon net now n c rt =
        (Inl (Error (''HTTP error! status: '' @ show_nat (status r))), c,
         rt\<lparr>requests := requests rt @ [fetchPokemon_url n]\<rparr>)
      \<and> requests (snd (snd (fetchPokemon net' now' n (sweeps ss c) rt'))) =
          requests rt' @ [fetchPokemon_url n])
   \<and> (\<not> truthy (fst (get (fetchLocation_url n) c)) \<and> net (fetchLocation_url n) = Some r \<and> \<not> ok r \<longrightarrow>
      fetchLocation net now n c rt =
        (Inl (Error (''HTTP error! status: '' @ show_nat (status r))), c,
         rt\<lparr>requests := requests rt @ [fetchLocation_url n]\<rparr>)
      \<and> requests (snd (snd (fetchLocation net' now' n (sweeps ss c) rt'))) =
          requests rt' @ [fetchLocation_url n])"
  by (simp add: fetchPokemon_def fetchLocation_def cached_fetch_status
      cached_fetch_miss_requests get_sweeps_falsy)

text \<open>
  C2 at an input: a fresh \<open>PokeAPI\<close> and a network answering 404. The call fails with
  the status in its message and the cache is the fresh cache; the next call adds a second
  request to the log.
\<close>

theorem fetch_failure_not_cached_witness:
  "\<not> ok \<lparr>status = 404, body = None\<rparr>
   \<and> fetchPokemon not_found 0 ''missingno'' (fst (PokeAPI_new rt0)) (snd (PokeAPI_new rt0)) =
       (Inl (Error ''HTTP error! status: 404''), fst (PokeAPI_new rt0),
        (snd (PokeAPI_new rt0))\<lparr>requests := [''https://pokeapi.co/api/v2/pokemon/missingno'']\<rparr>)
   \<and> requests (snd (snd (fetchPokemon not_found 10 ''missingno'' (sweeps [] (fst (PokeAPI_new rt0)))
        ((snd (PokeAPI_new rt0))\<lparr>requests := [''https://pokeapi.co/api/v2/pokemon/missingno'']\<rparr>)))) =
       [''https://pokeapi.co/api/v2/pokemon/missingno'', ''https://pokeapi.co/api/v2/pokemon/missingno'']"
proof -
  have n: "not_found (fetchPokemon_url ''missingno'') = Some \<lparr>status = 404, body = None\<rparr>"
    by (simp add: not_found_def)
  have o: "\<not> ok \<lparr>status = 404, body = None\<rparr>" by (simp add: ok_def)
  have u: "fetchPokemon_url ''missingno'' = ''https://pokeapi.co/api/v2/pokemon/missingno''"
    by (simp add: fetchPokemon_url_def baseURL_def)
  have r: "requests (snd (PokeAPI_new rt0)) = []"
    by (simp add: PokeAPI_new_def Cache_new_eq rt0_def)
  have "fetchPokemon not_found 0 ''missingno'' (fst (PokeAPI_new rt0)) (snd (PokeAPI_new rt0)) =
        (Inl (Error (''HTTP error! status: '' @ show_nat (status \<lparr>status = 404, body = None\<rparr>))),
         fst (PokeAPI_new rt0),
         (snd (PokeAPI_new rt0))\<lparr>requests :=
            requests (snd (PokeAPI_new rt0)) @ [fetchPokemon_url ''missingno'']\<rparr>)
      \<and> requests (snd (snd (fetchPokemon not_found 10 ''missingno'' (sweeps [] (fst (PokeAPI_new rt0)))
          ((snd (PokeAPI_new rt0))\<lparr>requests := [''https://pokeapi.co/api/v2/pokemon/missingno'']\<rparr>)))) =
          requests ((snd (PokeAPI_new rt0))\<lparr>requests := [''https://pokeapi.co/api/v2/pokemon/missingno'']\<rparr>)
            @ [fetchPokemon_url ''missingno'']"
    using fetch_failure_not_cached [of "''missingno''" "fst (PokeAPI_new rt0)" not_found
        "\<lparr>status = 404, body = None\<rparr>" 0 "snd (PokeAPI_new rt0)" not_found 10 "[]"
        "(snd (PokeAPI_new rt0))\<lparr>requests := [''https://pokeapi.co/api/v2/pokemon/missingno'']\<rparr>"]
      PokeAPI_new_miss n o
    by blast
  with o show ?thesis by (simp add: u r show_nat_404)
qed

end
